theory Spec2Isabelle
  imports
    Complex_Main
    "HOL-Library.Word"
    "HOL-Library.Signed_Division"
    "HOL-Library.Multiset"
begin

section \<open>Durations and their conversion to whole seconds\<close>

text \<open>
  Go's \<^verbatim>\<open>time.Duration\<close> is an \<^verbatim>\<open>int64\<close> count of nanoseconds. The storage
  compares durations (a signed comparison) and converts them to seconds with
  \<^verbatim>\<open>int64(ttl.Seconds())\<close> and \<^verbatim>\<open>int(ttl.Seconds())\<close>. The standard library
  computes \<^verbatim>\<open>Seconds\<close> in binary64 floating point:
  \<^verbatim>\<open>
  func (d Duration) Seconds() float64 {
      sec := d / Second
      nsec := d % Second
      return float64(sec) + float64(nsec)/1e9
  }
  \<close>
  so the model follows those operations one by one. A binary64 value is modelled by
  the rational number it denotes; every arithmetic operation rounds its exact result
  to the nearest value with a 53-bit significand, ties to even. Exponent range,
  infinities and NaN are left out: the magnitudes that occur here are 0 or lie between
  \<open>10\<^sup>-\<^sup>9\<close> and \<open>10\<^sup>1\<^sup>0\<close>, far inside the normal range.
\<close>

type_synonym duration = "64 word"

definition Second :: duration where
  "Second = 1000000000"

text \<open>The number of binary digits of a positive integer (0 for the others).\<close>

function bit_length :: "int \<Rightarrow> int" where
  "bit_length n = (if n \<le> 0 then 0 else 1 + bit_length (n div 2))"
  by pat_completeness auto
termination
  by (relation "measure nat") auto

text \<open>The exponent \<open>e\<close> of the binade \<open>2\<^sup>e \<le> x < 2\<^sup>e\<^sup>+\<^sup>1\<close> of a positive rational.\<close>

definition binade :: "rat \<Rightarrow> int" where
  "binade x =
     (if 1 \<le> x then bit_length \<lfloor>x\<rfloor> - 1
      else - bit_length (\<lceil>1 / x\<rceil> - 1))"

text \<open>Rounding a rational to the nearest integer, ties to the even neighbour.\<close>

definition round_half_even :: "rat \<Rightarrow> int" where
  "round_half_even q =
     (let f = \<lfloor>q\<rfloor>; r = q - of_int f
      in if r < 1 / 2 then f
         else if 1 / 2 < r then f + 1
         else if even f then f else f + 1)"

text \<open>Rounding to binary64: 53 significant bits, so one unit in the last place of
  a value in binade \<open>e\<close> is \<open>2\<^sup>e\<^sup>-\<^sup>5\<^sup>2\<close>.\<close>

definition round_binary64 :: "rat \<Rightarrow> rat" where
  "round_binary64 x =
     (if x = 0 then 0
      else let ulp = 2 powi (binade \<bar>x\<bar> - 52)
           in of_int (round_half_even (x / ulp)) * ulp)"

definition float64_of_int :: "int \<Rightarrow> rat" where
  "float64_of_int n = round_binary64 (of_int n)"

definition float64_add :: "rat \<Rightarrow> rat \<Rightarrow> rat" where
  "float64_add a b = round_binary64 (a + b)"

definition float64_div :: "rat \<Rightarrow> rat \<Rightarrow> rat" where
  "float64_div a b = round_binary64 (a / b)"

text \<open>Go's conversion of a float to an integer type drops the fraction (truncation
  towards zero). Every value converted here is below \<open>2\<^sup>3\<^sup>4\<close> in magnitude, so it
  fits the 64-bit \<^verbatim>\<open>int\<close> and \<^verbatim>\<open>int64\<close> and no wrap-around is involved.\<close>

definition int_of_float64 :: "rat \<Rightarrow> int" where
  "int_of_float64 x = (if 0 \<le> x then \<lfloor>x\<rfloor> else \<lceil>x\<rceil>)"

text \<open>\<^verbatim>\<open>Duration.Seconds\<close>: Go's \<^verbatim>\<open>/\<close> and \<^verbatim>\<open>%\<close> on integers truncate towards zero.\<close>

definition Seconds :: "duration \<Rightarrow> rat" where
  "Seconds d =
     (let sec = sint d sdiv sint Second;
          nsec = sint d smod sint Second
      in float64_add (float64_of_int sec) (float64_div (float64_of_int nsec) 1000000000))"

text \<open>The expression \<^verbatim>\<open>int64(ttl.Seconds())\<close> of \<^verbatim>\<open>SetSession\<close> and
  \<^verbatim>\<open>int(ttl.Seconds())\<close> of \<^verbatim>\<open>UpdateTTL\<close> (a 64-bit \<^verbatim>\<open>int\<close>).\<close>

definition ttlSeconds :: "duration \<Rightarrow> int" where
  "ttlSeconds ttl = int_of_float64 (Seconds ttl)"

text \<open>\<^verbatim>\<open>DefaultStorageRedisLoopInterval = 10 * time.Second\<close>.\<close>

definition DefaultStorageRedisLoopInterval :: duration where
  "DefaultStorageRedisLoopInterval = 10 * Second"

section \<open>Errors, the backend and the JSON codec\<close>

text \<open>
  Modelled from the spec: the sentinel \<^verbatim>\<open>ErrorDisabled\<close> is a package-level value
  declared outside the two storage files; the specification calls it the distinct,
  stable ``operation disabled'' error. Every other error value reaches the
  storage from a collaborator (the Redis client, the JSON codec) and is passed on
  unchanged, so it is kept opaque.
\<close>

datatype error = ErrorDisabled | ExternalError string

type_synonym bytes = string

text \<open>The four commands the storage sends through \<^verbatim>\<open>redis.Do\<close>.\<close>

datatype command =
    GET string
  | SETEX string int bytes
  | EXPIRE string int
  | DEL string

text \<open>
  Modelled from the spec: the reply of \<^verbatim>\<open>redis.Do\<close> is a \<^verbatim>\<open>*gvar.Var\<close> of which the
  storage reads only \<^verbatim>\<open>Bytes()\<close>; a missing key is a nil reply whose bytes are empty
  (``empty/missing result is a normal absent outcome'').
\<close>

type_synonym reply = "bytes option"

definition Bytes :: "reply \<Rightarrow> bytes" where
  "Bytes r = (case r of None \<Rightarrow> [] | Some b \<Rightarrow> b)"

text \<open>
  The Redis client is a collaborator outside the sources. It is modelled by its
  observable behaviour: the answer to a command, given the commands sent before it.
  Any function of this type is a possible backend, failing ones included.
\<close>

type_synonym redis_client = "command list \<Rightarrow> command \<Rightarrow> error + reply"


text \<open>
  Modelled from the spec: a reference key-value store without a clock, which replays
  the commands it was sent (\<^verbatim>\<open>GET/SETEX/EXPIRE/DEL\<close> semantics of section 6). It serves
  as a concrete backend where one is needed.
\<close>

fun replay :: "command \<Rightarrow> (string \<rightharpoonup> bytes) \<Rightarrow> (string \<rightharpoonup> bytes)" where
  "replay (SETEX key n content) kv = (if 1 \<le> n then kv(key \<mapsto> content) else kv)"
| "replay (DEL key) kv = kv(key := None)"
| "replay (GET key) kv = kv"
| "replay (EXPIRE key n) kv = kv"

fun reference_store :: redis_client where
  "reference_store hist (GET key) = Inr (fold replay hist Map.empty key)"
| "reference_store hist (SETEX key n content) =
     (if 1 \<le> n then Inr (Some ''OK'') else Inl (ExternalError ''ERR invalid expire time''))"
| "reference_store hist (EXPIRE key n) =
     Inr (Some (if fold replay hist Map.empty key = None then ''0'' else ''1''))"
| "reference_store hist (DEL key) =
     Inr (Some (if fold replay hist Map.empty key = None then ''0'' else ''1''))"

text \<open>
  A session value map (\<^verbatim>\<open>map[string]interface{}\<close>); the dynamically typed values are
  a type parameter. The JSON codec is a collaborator: \<^verbatim>\<open>json.Marshal\<close> is given the
  map behind the \<^verbatim>\<open>*gmap.StrAnyMap\<close> (or nil), and \<^verbatim>\<open>json.UnmarshalUseNumber\<close> either
  fails, or leaves the target map nil (the JSON value \<^verbatim>\<open>null\<close>), or fills it.
\<close>

type_synonym 'v session_map = "string \<rightharpoonup> 'v"

record 'v json =
  Marshal :: "'v session_map option \<Rightarrow> error + bytes"
  UnmarshalUseNumber :: "bytes \<Rightarrow> error + 'v session_map option"

text \<open>
  Some of the values a session map holds behind \<^verbatim>\<open>interface{}\<close>: a Go string, a Go
  \<^verbatim>\<open>int\<close>, and the \<^verbatim>\<open>json.Number\<close> (a decimal numeral kept as text) that the
  number-preserving decode produces for every JSON number.
\<close>

datatype go_value = GoString string | GoInt int | JsonNumber string

text \<open>
  Modelled from the spec: the JSON codec is outside the sources (section 6: field names
  preserved, numbers decoded as decimal numbers). This table records what the codec
  does at the payloads of the examples: \<^verbatim>\<open>Marshal\<close> writes a nil map as \<^verbatim>\<open>null\<close>, the keys
  of a map in sorted order, a string in quotes, a Go \<^verbatim>\<open>int\<close> and a \<^verbatim>\<open>json.Number\<close> as
  a numeral; \<^verbatim>\<open>UnmarshalUseNumber\<close> reads \<^verbatim>\<open>null\<close> as a nil map and every numeral as a
  \<^verbatim>\<open>json.Number\<close>. Outside the table it answers with an error.
\<close>

definition json_table :: "go_value json" where
  \<open>json_table =
     \<lparr>Marshal = (\<lambda>data.
        if data = None then Inr ''null''
        else if data = Some [''n'' \<mapsto> JsonNumber ''100'', ''name'' \<mapsto> GoString ''john'']
          then Inr ''{"n":100,"name":"john"}''
        else if data = Some [''n'' \<mapsto> GoInt 1] then Inr ''{"n":1}''
        else Inl (ExternalError ''json: not in the table'')),
      UnmarshalUseNumber = (\<lambda>content.
        if content = ''null'' then Inr None
        else if content = ''{"n":100,"name":"john"}''
          then Inr (Some [''n'' \<mapsto> JsonNumber ''100'', ''name'' \<mapsto> GoString ''john''])
        else if content = ''{"n":1}'' then Inr (Some [''n'' \<mapsto> JsonNumber ''1''])
        else Inl (ExternalError ''invalid character''))\<rparr>\<close>

text \<open>
  The \<^verbatim>\<open>*gmap.StrAnyMap\<close> objects live in a store of objects: a pointer is an index,
  nil is \<open>None\<close>.

  Modelled from the spec: \<^verbatim>\<open>gmap.NewStrAnyMapFrom\<close> allocates a new map object around
  the given data, and \<^verbatim>\<open>Replace\<close> replaces the contents of an existing object in place
  (section 4.3).
\<close>

type_synonym 'v heap = "'v session_map list"

type_synonym pointer = "nat option"

definition NewStrAnyMapFrom :: "'v heap \<Rightarrow> 'v session_map \<Rightarrow> nat \<times> 'v heap" where
  "NewStrAnyMapFrom h m = (length h, h @ [m])"

definition Replace :: "'v heap \<Rightarrow> nat \<Rightarrow> 'v session_map \<Rightarrow> 'v heap" where
  "Replace h p m = h[p := m]"

section \<open>The Redis storage\<close>

text \<open>
  Modelled from the spec: \<^verbatim>\<open>gmap.StrIntMap\<close>, the Pending-Renewal Set (section 4.2).
  \<^verbatim>\<open>Set\<close> inserts or overwrites. \<^verbatim>\<open>Pop\<close> removes and returns one arbitrary entry, or
  signals emptiness; the caller in the sources reads that signal as an empty session
  id, the zero values of Go's two results.
\<close>

type_synonym StrIntMap = "string \<rightharpoonup> int"

definition StrIntMap_Set :: "StrIntMap \<Rightarrow> string \<Rightarrow> int \<Rightarrow> StrIntMap" where
  "StrIntMap_Set m key val = m(key \<mapsto> val)"

inductive Pop :: "StrIntMap \<Rightarrow> string \<times> int \<Rightarrow> StrIntMap \<Rightarrow> bool" where
  Pop_empty: "m = Map.empty \<Longrightarrow> Pop m ('''', 0) m"
| Pop_entry: "m key = Some val \<Longrightarrow> Pop m (key, val) (m(key := None))"

record StorageRedis =
  redis :: redis_client
  prefix :: string
  updatingIdMap :: StrIntMap

text \<open>\<^verbatim>\<open>NewStorageRedis\<close>; \<open>None\<close> is the panic on a nil client. The timer it registers
  is \<open>timer_callback\<close> below.\<close>

definition NewStorageRedis :: "redis_client option \<Rightarrow> string list \<Rightarrow> StorageRedis option" where
  "NewStorageRedis rd pfx =
     (case rd of
        None \<Rightarrow> None
      | Some r \<Rightarrow>
          Some \<lparr>redis = r,
                prefix = (if 0 < length pfx \<and> pfx ! 0 \<noteq> '''' then pfx ! 0 else ''''),
                updatingIdMap = Map.empty\<rparr>)"

definition sessionIdToRedisKey :: "StorageRedis \<Rightarrow> string \<Rightarrow> string" where
  "sessionIdToRedisKey s sessionId = prefix s @ sessionId"

text \<open>\<^verbatim>\<open>s.redis.Do\<close>: the answer of the client, and the command added to those sent.\<close>

definition Do :: "StorageRedis \<Rightarrow> command list \<Rightarrow> command \<Rightarrow> (error + reply) \<times> command list" where
  "Do s sent c = (redis s sent c, sent @ [c])"

text \<open>The operations the Redis storage disables.\<close>

definition StorageRedis_New :: "StorageRedis \<Rightarrow> duration \<Rightarrow> string \<times> error option" where
  "StorageRedis_New s ttl = ('''', Some ErrorDisabled)"

definition StorageRedis_Get :: "StorageRedis \<Rightarrow> string \<Rightarrow> string \<Rightarrow> 'v option \<times> error option" where
  "StorageRedis_Get s sessionId key = (None, Some ErrorDisabled)"

definition StorageRedis_Data :: "StorageRedis \<Rightarrow> string \<Rightarrow> 'v session_map option \<times> error option" where
  "StorageRedis_Data s sessionId = (None, Some ErrorDisabled)"

definition StorageRedis_GetSize :: "StorageRedis \<Rightarrow> string \<Rightarrow> int \<times> error option" where
  "StorageRedis_GetSize s sessionId = (- 1, Some ErrorDisabled)"

definition StorageRedis_Set :: "StorageRedis \<Rightarrow> string \<Rightarrow> string \<Rightarrow> 'v \<Rightarrow> duration \<Rightarrow> error option" where
  "StorageRedis_Set s sessionId key val ttl = Some ErrorDisabled"

definition StorageRedis_SetMap :: "StorageRedis \<Rightarrow> string \<Rightarrow> 'v session_map \<Rightarrow> duration \<Rightarrow> error option" where
  "StorageRedis_SetMap s sessionId data ttl = Some ErrorDisabled"

definition StorageRedis_Remove :: "StorageRedis \<Rightarrow> string \<Rightarrow> string \<Rightarrow> error option" where
  "StorageRedis_Remove s sessionId key = Some ErrorDisabled"

definition RemoveAll :: "StorageRedis \<Rightarrow> command list \<Rightarrow> string \<Rightarrow> error option \<times> command list" where
  "RemoveAll s sent sessionId =
     (case Do s sent (DEL (sessionIdToRedisKey s sessionId)) of
        (Inl err, sent') \<Rightarrow> (Some err, sent')
      | (Inr r, sent') \<Rightarrow> (None, sent'))"

text \<open>\<^verbatim>\<open>GetSession\<close>: the result pointer and error, the commands sent, and the objects.\<close>

definition GetSession ::
  "'v json \<Rightarrow> StorageRedis \<Rightarrow> command list \<Rightarrow> 'v heap \<Rightarrow> string \<Rightarrow> duration \<Rightarrow> pointer
     \<Rightarrow> (pointer \<times> error option) \<times> command list \<times> 'v heap" where
  "GetSession js s sent h sessionId ttl data =
     (case Do s sent (GET (sessionIdToRedisKey s sessionId)) of
        (Inl err, sent') \<Rightarrow> ((None, Some err), sent', h)
      | (Inr r, sent') \<Rightarrow>
          (let content = Bytes r in
           if length content = 0 then ((None, None), sent', h)
           else
             (case UnmarshalUseNumber js content of
                Inl err \<Rightarrow> ((None, Some err), sent', h)
              | Inr None \<Rightarrow> ((None, None), sent', h)
              | Inr (Some m) \<Rightarrow>
                  (case data of
                     None \<Rightarrow>
                       (let (p, h') = NewStrAnyMapFrom h m in ((Some p, None), sent', h'))
                   | Some p \<Rightarrow> ((Some p, None), sent', Replace h p m)))))"

text \<open>\<^verbatim>\<open>SetSession\<close>: \<^verbatim>\<open>json.Marshal(data)\<close> sees the map behind the pointer.\<close>

definition SetSession ::
  "'v json \<Rightarrow> StorageRedis \<Rightarrow> command list \<Rightarrow> 'v heap \<Rightarrow> string \<Rightarrow> pointer \<Rightarrow> duration
     \<Rightarrow> error option \<times> command list" where
  "SetSession js s sent h sessionId data ttl =
     (case Marshal js (map_option (\<lambda>p. h ! p) data) of
        Inl err \<Rightarrow> (Some err, sent)
      | Inr content \<Rightarrow>
          (case Do s sent (SETEX (sessionIdToRedisKey s sessionId) (ttlSeconds ttl) content) of
             (Inl err, sent') \<Rightarrow> (Some err, sent')
           | (Inr r, sent') \<Rightarrow> (None, sent')))"

text \<open>\<^verbatim>\<open>UpdateTTL\<close>: the comparison of two \<^verbatim>\<open>int64\<close> durations is signed.\<close>

definition UpdateTTL :: "StorageRedis \<Rightarrow> string \<Rightarrow> duration \<Rightarrow> StorageRedis \<times> error option" where
  "UpdateTTL s sessionId ttl =
     (if sint DefaultStorageRedisLoopInterval \<le> sint ttl
      then (s\<lparr>updatingIdMap := StrIntMap_Set (updatingIdMap s) sessionId (ttlSeconds ttl)\<rparr>, None)
      else (s, None))"

definition doUpdateTTL ::
  "StorageRedis \<Rightarrow> command list \<Rightarrow> string \<Rightarrow> int \<Rightarrow> error option \<times> command list" where
  "doUpdateTTL s sent sessionId secs =
     (case Do s sent (EXPIRE (sessionIdToRedisKey s sessionId) secs) of
        (Inl err, sent') \<Rightarrow> (Some err, sent')
      | (Inr r, sent') \<Rightarrow> (None, sent'))"

text \<open>
  The callback that \<^verbatim>\<open>NewStorageRedis\<close> hands to the timer. Its state is the storage,
  the commands sent so far and the errors written by \<^verbatim>\<open>intlog.Errorf\<close>. \<^verbatim>\<open>Pop\<close> picks an
  arbitrary entry, so a run of the loop is a relation between the state before and the
  state after: \<open>loop_break\<close> is the branch \<^verbatim>\<open>sessionId == ""\<close>, \<open>loop_next\<close> the other
  branch followed by the rest of the loop.
\<close>

type_synonym flusher_state = "StorageRedis \<times> command list \<times> error list"

inductive timer_callback :: "flusher_state \<Rightarrow> flusher_state \<Rightarrow> bool" where
  loop_break:
    "Pop (updatingIdMap s) (sessionId, secs) m' \<Longrightarrow> sessionId = '''' \<Longrightarrow>
     timer_callback (s, sent, errlog) (s\<lparr>updatingIdMap := m'\<rparr>, sent, errlog)"
| loop_next:
    "Pop (updatingIdMap s) (sessionId, secs) m' \<Longrightarrow> sessionId \<noteq> '''' \<Longrightarrow>
     doUpdateTTL (s\<lparr>updatingIdMap := m'\<rparr>) sent sessionId secs = (err, sent') \<Longrightarrow>
     timer_callback
       (s\<lparr>updatingIdMap := m'\<rparr>, sent', (case err of None \<Rightarrow> errlog | Some e \<Rightarrow> errlog @ [e]))
       final \<Longrightarrow>
     timer_callback (s, sent, errlog) final"

text \<open>The errors a backend answers to a sequence of commands sent after \<open>hist\<close>.\<close>

fun failures :: "redis_client \<Rightarrow> command list \<Rightarrow> command list \<Rightarrow> error list" where
  "failures rd hist [] = []"
| "failures rd hist (c # cs) =
     (case rd hist c of Inl e \<Rightarrow> [e] | Inr r \<Rightarrow> []) @ failures rd (hist @ [c]) cs"

text \<open>What one flush owes the backend: one \<^verbatim>\<open>EXPIRE\<close> for every queued entry, under the
  key of its session id and with its queued seconds.\<close>

definition renewals :: "StorageRedis \<Rightarrow> command multiset" where
  "renewals s =
     image_mset (\<lambda>(key, secs). EXPIRE (prefix s @ key) secs)
       (mset_set (Map.graph (updatingIdMap s)))"

section \<open>The memory storage\<close>

text \<open>\<^verbatim>\<open>type StorageMemory struct{}\<close>.\<close>

datatype StorageMemory = StorageMemory

definition NewStorageMemory :: StorageMemory where
  "NewStorageMemory = StorageMemory"

definition StorageMemory_New :: "StorageMemory \<Rightarrow> duration \<Rightarrow> string \<times> error option" where
  "StorageMemory_New s ttl = ('''', Some ErrorDisabled)"

definition StorageMemory_Get :: "StorageMemory \<Rightarrow> string \<Rightarrow> string \<Rightarrow> 'v option \<times> error option" where
  "StorageMemory_Get s sessionId key = (None, Some ErrorDisabled)"

definition StorageMemory_Data :: "StorageMemory \<Rightarrow> string \<Rightarrow> 'v session_map option \<times> error option" where
  "StorageMemory_Data s sessionId = (None, Some ErrorDisabled)"

definition StorageMemory_GetSize :: "StorageMemory \<Rightarrow> string \<Rightarrow> int \<times> error option" where
  "StorageMemory_GetSize s sessionId = (- 1, Some ErrorDisabled)"

definition StorageMemory_Set :: "StorageMemory \<Rightarrow> string \<Rightarrow> string \<Rightarrow> 'v \<Rightarrow> duration \<Rightarrow> error option" where
  "StorageMemory_Set s sessionId key val ttl = Some ErrorDisabled"

definition StorageMemory_SetMap :: "StorageMemory \<Rightarrow> string \<Rightarrow> 'v session_map \<Rightarrow> duration \<Rightarrow> error option" where
  "StorageMemory_SetMap s sessionId data ttl = Some ErrorDisabled"

definition StorageMemory_Remove :: "StorageMemory \<Rightarrow> string \<Rightarrow> string \<Rightarrow> error option" where
  "StorageMemory_Remove s sessionId key = Some ErrorDisabled"

definition StorageMemory_RemoveAll :: "StorageMemory \<Rightarrow> string \<Rightarrow> error option" where
  "StorageMemory_RemoveAll s sessionId = Some ErrorDisabled"

definition StorageMemory_GetSession ::
  "StorageMemory \<Rightarrow> string \<Rightarrow> duration \<Rightarrow> pointer \<Rightarrow> pointer \<times> error option" where
  "StorageMemory_GetSession s sessionId ttl data = (data, None)"

definition StorageMemory_SetSession ::
  "StorageMemory \<Rightarrow> string \<Rightarrow> pointer \<Rightarrow> duration \<Rightarrow> error option" where
  "StorageMemory_SetSession s sessionId data ttl = None"

definition StorageMemory_UpdateTTL :: "StorageMemory \<Rightarrow> string \<Rightarrow> duration \<Rightarrow> error option" where
  "StorageMemory_UpdateTTL s sessionId ttl = None"

section \<open>Facts about the conversion to seconds\<close>


declare bit_length.simps [simp del]

lemma bit_length_nonpos: "n \<le> 0 \<Longrightarrow> bit_length n = 0"
  by (simp add: bit_length.simps)

lemma bit_length_pos: "0 < n \<Longrightarrow> bit_length n = 1 + bit_length (n div 2)"
  by (subst bit_length.simps) simp

lemma bit_length_ge0: "0 \<le> bit_length n"
  by (induction n rule: bit_length.induct) (subst bit_length.simps, simp)

lemma bit_length_bounds:
  "0 < n \<Longrightarrow> 2 ^ nat (bit_length n - 1) \<le> n \<and> n < 2 ^ nat (bit_length n)"
proof (induction n rule: bit_length.induct)
  case (1 n)
  show ?case
  proof (cases "n = 1")
    case True
    then show ?thesis by (simp add: bit_length_pos bit_length_nonpos)
  next
    case False
    with 1 have h: "0 < n div 2" by simp
    with 1 have IH: "2 ^ nat (bit_length (n div 2) - 1) \<le> n div 2" "n div 2 < 2 ^ nat (bit_length (n div 2))"
      by auto
    have ge1: "1 \<le> bit_length (n div 2)"
      using h bit_length_pos [of "n div 2"] bit_length_ge0 [of "n div 2 div 2"] by simp
    have e1: "nat (bit_length n - 1) = Suc (nat (bit_length (n div 2) - 1))"
      using 1(2) ge1 by (simp add: bit_length_pos)
    have e2: "nat (bit_length n) = Suc (nat (bit_length (n div 2)))"
      using 1(2) ge1 by (simp add: bit_length_pos)
    show ?thesis unfolding e1 e2 using IH by simp presburger
  qed
qed

lemma round_half_even_cases:
  "round_half_even q = \<lfloor>q\<rfloor> \<or> (round_half_even q = \<lfloor>q\<rfloor> + 1 \<and> of_int \<lfloor>q\<rfloor> + 1/2 \<le> q)"
  by (auto simp: round_half_even_def Let_def)

lemma round_half_even_lower:
  assumes "of_int n \<le> q" shows "n \<le> round_half_even q"
proof -
  have "n \<le> \<lfloor>q\<rfloor>" using assms by (simp add: le_floor_iff)
  then show ?thesis using round_half_even_cases [of q] by auto
qed

lemma round_half_even_upper:
  assumes "q \<le> of_int n" shows "round_half_even q \<le> n"
proof -
  have f: "\<lfloor>q\<rfloor> \<le> n" using assms by (simp add: floor_le_iff)
  show ?thesis
  proof (cases "round_half_even q = \<lfloor>q\<rfloor>")
    case True
    then show ?thesis using f by simp
  next
    case False
    then have r: "round_half_even q = \<lfloor>q\<rfloor> + 1" and h: "of_int \<lfloor>q\<rfloor> + 1/2 \<le> q"
      using round_half_even_cases [of q] by auto
    from h assms have "(of_int \<lfloor>q\<rfloor> :: rat) < of_int n" by linarith
    then have "\<lfloor>q\<rfloor> < n" by simp
    then show ?thesis using r by simp
  qed
qed

lemma round_half_even_err: "of_int (round_half_even q) \<le> q + 1/2"
proof (cases "round_half_even q = \<lfloor>q\<rfloor>")
  case True
  have "of_int \<lfloor>q\<rfloor> \<le> q" by (rule of_int_floor_le)
  then have "of_int \<lfloor>q\<rfloor> \<le> q + 1/2" by linarith
  then show ?thesis unfolding True .
next
  case False
  then have r: "round_half_even q = \<lfloor>q\<rfloor> + 1" and h: "of_int \<lfloor>q\<rfloor> + 1/2 \<le> q"
    using round_half_even_cases [of q] by auto
  show ?thesis using h unfolding r by simp
qed

lemma binade_bounds:
  assumes "0 < x"
  shows "2 powi binade x \<le> x \<and> x < 2 powi (binade x + 1)"
proof (cases "1 \<le> x")
  case True
  then have fp: "0 < \<lfloor>x\<rfloor>" by simp
  let ?b = "bit_length \<lfloor>x\<rfloor>"
  from bit_length_bounds [OF fp] have lo: "2 ^ nat (?b - 1) \<le> \<lfloor>x\<rfloor>" and hi: "\<lfloor>x\<rfloor> < 2 ^ nat ?b"
    by auto
  have b1: "1 \<le> ?b" using fp bit_length_pos [of "\<lfloor>x\<rfloor>"] bit_length_ge0 [of "\<lfloor>x\<rfloor> div 2"] by simp
  have e: "binade x = ?b - 1" using True by (simp add: binade_def)
  have "(of_int (2 ^ nat (?b - 1)) :: rat) \<le> of_int \<lfloor>x\<rfloor>" using lo by (simp only: of_int_le_iff)
  also have "\<dots> \<le> x" by simp
  finally have 1: "2 powi binade x \<le> x" using b1 by (simp add: e power_int_def)
  have "\<lfloor>x\<rfloor> + 1 \<le> 2 ^ nat ?b" using hi by simp
  then have "(of_int (\<lfloor>x\<rfloor> + 1) :: rat) \<le> of_int (2 ^ nat ?b)" by (simp only: of_int_le_iff)
  moreover have "x < of_int (\<lfloor>x\<rfloor> + 1)" by linarith
  ultimately have 2: "x < 2 powi (binade x + 1)" using b1 by (simp add: e power_int_def)
  show ?thesis using 1 2 by simp
next
  case False
  then have x1: "x < 1" by simp
  define c where "c = \<lceil>1 / x\<rceil>"
  have inv1: "1 < 1 / x" using assms x1 by simp
  then have c2: "2 \<le> c" unfolding c_def by linarith
  let ?b = "bit_length (c - 1)"
  have cp: "0 < c - 1" using c2 by simp
  from bit_length_bounds [OF cp] have lo: "2 ^ nat (?b - 1) \<le> c - 1" and hi: "c - 1 < 2 ^ nat ?b"
    by auto
  have b1: "1 \<le> ?b" using cp bit_length_pos [of "c - 1"] bit_length_ge0 [of "(c - 1) div 2"] by simp
  have e: "binade x = - ?b" using False by (simp add: binade_def c_def)
  have "c \<le> 2 ^ nat ?b" using hi by simp
  then have "(of_int c :: rat) \<le> of_int (2 ^ nat ?b)" by (simp only: of_int_le_iff)
  then have "(of_int c :: rat) \<le> 2 ^ nat ?b" by simp
  moreover have "1 / x \<le> of_int c" unfolding c_def by (rule le_of_int_ceiling)
  ultimately have "1 / x \<le> 2 ^ nat ?b" by linarith
  then have "1 \<le> 2 ^ nat ?b * x" using assms by (simp add: field_simps)
  then have 1: "2 powi binade x \<le> x" using b1 by (simp add: e power_int_def field_simps)
  have "(2::int) ^ nat (?b - 1) < c" using lo by simp
  then have "(of_int (2 ^ nat (?b - 1)) :: rat) < of_int c" by (simp only: of_int_less_iff)
  then have "(2::rat) ^ nat (?b - 1) < of_int c" by simp
  then have "(2::rat) ^ nat (?b - 1) < 1 / x" unfolding c_def by (simp add: less_ceiling_iff)
  then have "x * 2 ^ nat (?b - 1) < 1" using assms by (simp add: field_simps)
  then have "x < inverse (2 ^ nat (?b - 1))" by (simp add: field_simps)
  moreover have eq: "binade x + 1 = - (?b - 1)" using e by simp
  have "(2::rat) powi (binade x + 1) = inverse (2 ^ nat (?b - 1))"
    unfolding eq power_int_minus using b1 by (simp add: power_int_def)
  ultimately have 2: "x < 2 powi (binade x + 1)" by simp
  show ?thesis using 1 2 by simp
qed

lemma binade_less:
  assumes "0 < x" "x < 2 powi k"
  shows "binade x < k"
proof (rule ccontr)
  assume "\<not> binade x < k"
  then have "k \<le> binade x" by simp
  then have "(2::rat) powi k \<le> 2 powi binade x" by (simp add: power_int_increasing)
  with binade_bounds [OF assms(1)] assms(2) show False by linarith
qed

lemma round_binary64_nonneg: "0 \<le> x \<Longrightarrow> 0 \<le> round_binary64 x"
  using round_half_even_lower [of 0 "x / 2 powi (binade \<bar>x\<bar> - 52)"]
  by (simp add: round_binary64_def Let_def)

text \<open>An integer bound on a positive value below \<open>2\<^sup>5\<^sup>3\<close> survives rounding.\<close>

lemma round_binary64_int_bounds:
  assumes "0 < x" "x < 2 ^ 53"
  shows "of_int n \<le> x \<Longrightarrow> of_int n \<le> round_binary64 x"
    and "x \<le> of_int n \<Longrightarrow> round_binary64 x \<le> of_int n"
proof -
  define k where "k = nat (52 - binade x)"
  have "x < 2 powi 53" using assms(2) by simp
  then have "binade x < 53" using assms(1) by (rule binade_less [rotated])
  then have ulp: "(2::rat) powi (binade x - 52) = inverse (2 ^ k)"
    unfolding k_def by (simp add: power_int_def power_one_over inverse_eq_divide)
  have rb: "round_binary64 x = of_int (round_half_even (x * 2 ^ k)) / 2 ^ k"
    using assms(1) by (simp add: round_binary64_def Let_def ulp field_simps)
  {
    assume "of_int n \<le> x"
    then have "of_int (n * 2 ^ k) \<le> x * 2 ^ k" by simp
    then have "n * 2 ^ k \<le> round_half_even (x * 2 ^ k)" by (rule round_half_even_lower)
    then have "(of_int (n * 2 ^ k) :: rat) \<le> of_int (round_half_even (x * 2 ^ k))"
      by (simp only: of_int_le_iff)
    then show "of_int n \<le> round_binary64 x" unfolding rb by (simp add: field_simps)
  }
  {
    assume "x \<le> of_int n"
    then have "x * 2 ^ k \<le> of_int (n * 2 ^ k)" by simp
    then have "round_half_even (x * 2 ^ k) \<le> n * 2 ^ k" by (rule round_half_even_upper)
    then have "(of_int (round_half_even (x * 2 ^ k)) :: rat) \<le> of_int (n * 2 ^ k)"
      by (simp only: of_int_le_iff)
    then show "round_binary64 x \<le> of_int n" unfolding rb by (simp add: field_simps)
  }
qed

lemma round_binary64_err:
  assumes "0 < x"
  shows "round_binary64 x \<le> x + 2 powi (binade x - 53)"
proof -
  let ?u = "(2::rat) powi (binade x - 52)"
  have up: "0 < ?u" by simp
  have "of_int (round_half_even (x / ?u)) \<le> x / ?u + 1/2" by (rule round_half_even_err)
  then have "of_int (round_half_even (x / ?u)) * ?u \<le> (x / ?u + 1/2) * ?u"
    using up by (simp only: mult_le_cancel_right_pos)
  also have "\<dots> = x + ?u / 2" using up by (simp add: field_simps)
  also have "?u / 2 = 2 powi (binade x - 53)"
    by (simp add: power_int_diff)
  finally show ?thesis using assms by (simp add: round_binary64_def Let_def)
qed

lemma float64_of_int_exact:
  assumes "0 \<le> n" "n < 2 ^ 53"
  shows "float64_of_int n = of_int n"
proof (cases "n = 0")
  case True
  then show ?thesis by (simp add: float64_of_int_def round_binary64_def)
next
  case False
  with assms have p: "0 < (of_int n :: rat)" by simp
  have "(of_int n :: rat) < of_int (2 ^ 53)" using assms(2) by (simp only: of_int_less_iff)
  then have b: "(of_int n :: rat) < 2 ^ 53" by simp
  have "of_int n \<le> round_binary64 (of_int n)" "round_binary64 (of_int n) \<le> of_int n"
    using round_binary64_int_bounds [OF p b, of n] by simp_all
  then show ?thesis by (simp add: float64_of_int_def)
qed

lemma tiny_powers: "999999999 / 1000000000 + 2 powi (- 54) + 2 powi (- 30) < (1::rat)"
  by (simp add: power_int_def power_one_over)

lemma power_int_2_mono: "a \<le> b \<Longrightarrow> (2::rat) powi a \<le> 2 powi b"
  by (simp add: power_int_increasing)

text \<open>The fraction \<open>nsec / 10\<^sup>9\<close> after its rounding.\<close>

lemma fraction_bounds:
  assumes "0 \<le> b" "b < 1000000000"
  shows "0 \<le> float64_div (float64_of_int b) 1000000000"
    and "float64_div (float64_of_int b) 1000000000 \<le> 999999999 / 1000000000 + 2 powi (- 54)"
proof -
  have fb: "float64_of_int b = of_int b"
    using assms by (intro float64_of_int_exact) simp_all
  let ?q = "of_int b / 1000000000 :: rat"
  have q0: "0 \<le> ?q" using assms by simp
  show "0 \<le> float64_div (float64_of_int b) 1000000000"
    unfolding fb float64_div_def using q0 by (rule round_binary64_nonneg)
  have "(of_int b :: rat) \<le> of_int 999999999" using assms by simp
  then have q1: "?q \<le> 999999999 / 1000000000" by simp
  show "float64_div (float64_of_int b) 1000000000 \<le> 999999999 / 1000000000 + 2 powi (- 54)"
  proof (cases "b = 0")
    case True
    have "float64_of_int 0 = 0" by (simp add: float64_of_int_def round_binary64_def)
    then have "float64_div (float64_of_int b) 1000000000 = 0"
      unfolding True by (simp add: float64_div_def round_binary64_def)
    moreover have "0 \<le> (2::rat) powi (- 54)" by simp
    ultimately show ?thesis by simp
  next
    case False
    with assms have qp: "0 < ?q" by simp
    have "?q < 2 powi 0" using q1 by simp
    then have "binade ?q < 0" using qp by (rule binade_less [rotated])
    then have "(2::rat) powi (binade ?q - 53) \<le> 2 powi (- 54)"
      by (intro power_int_2_mono) simp
    with round_binary64_err [OF qp] q1 show ?thesis
      unfolding fb float64_div_def by linarith
  qed
qed

lemma sint_Second: "sint Second = 1000000000"
  by (simp add: Second_def)

lemma Seconds_nonneg_unfold:
  assumes "0 \<le> sint d"
  shows "Seconds d = round_binary64 (of_int (sint d div 1000000000)
           + float64_div (float64_of_int (sint d mod 1000000000)) 1000000000)"
proof -
  have lt: "sint d < 2 ^ 63" using sint_lt [of d] by simp
  have a: "sint d sdiv sint Second = sint d div 1000000000"
    using assms by (simp add: sint_Second signed_divide_int_def sgn_if)
  have b: "sint d smod sint Second = sint d mod 1000000000"
    using assms by (simp add: sint_Second signed_modulo_int_def sgn_if)
  have "sint d div 1000000000 < 2 ^ 53" using lt by simp
  moreover have "0 \<le> sint d div 1000000000" using assms by simp
  ultimately have "float64_of_int (sint d div 1000000000) = of_int (sint d div 1000000000)"
    by (intro float64_of_int_exact)
  then show ?thesis by (simp add: Seconds_def a b Let_def float64_add_def)
qed

lemma ttlSeconds_bounds:
  assumes "0 \<le> sint d"
  shows "sint d div 1000000000 \<le> ttlSeconds d" and "ttlSeconds d \<le> sint d div 1000000000 + 1"
proof -
  let ?a = "sint d div 1000000000"
  let ?r = "float64_div (float64_of_int (sint d mod 1000000000)) 1000000000"
  let ?y = "of_int ?a + ?r"
  have lt: "sint d < 2 ^ 63" using sint_lt [of d] by simp
  have a0: "0 \<le> ?a" using assms by simp
  have a53: "?a + 1 < 2 ^ 53" using lt by simp
  have r: "0 \<le> ?r" "?r \<le> 999999999 / 1000000000 + 2 powi (- 54)"
    by (rule fraction_bounds; simp)+
  have r1: "?r \<le> 1" using r(2) tiny_powers by simp
  have S: "Seconds d = round_binary64 ?y" using assms by (rule Seconds_nonneg_unfold)
  have y0: "0 \<le> ?y" using a0 r(1) by simp
  have nn: "0 \<le> round_binary64 ?y" using y0 by (rule round_binary64_nonneg)
  have "of_int ?a \<le> round_binary64 ?y \<and> round_binary64 ?y \<le> of_int (?a + 1)"
  proof (cases "?y = 0")
    case True
    moreover from True y0 a0 r(1) have "(of_int ?a :: rat) = 0" by linarith
    ultimately show ?thesis by (simp add: round_binary64_def)
  next
    case False
    with y0 have yp: "0 < ?y" by simp
    have "(of_int (?a + 1) :: rat) < of_int (2 ^ 53)" using a53 by (simp only: of_int_less_iff)
    then have "(of_int ?a :: rat) + 1 < 2 ^ 53" by simp
    with r1 have yb: "?y < 2 ^ 53" by linarith
    have "of_int ?a \<le> ?y" using r(1) by simp
    moreover have "?y \<le> of_int (?a + 1)" using r1 by simp
    ultimately show ?thesis using round_binary64_int_bounds [OF yp yb] by blast
  qed
  then have "?a \<le> \<lfloor>round_binary64 ?y\<rfloor>" "\<lfloor>round_binary64 ?y\<rfloor> \<le> ?a + 1"
    by (simp_all add: le_floor_iff floor_le_iff)
  then show "?a \<le> ttlSeconds d" "ttlSeconds d \<le> ?a + 1"
    using nn by (simp_all add: ttlSeconds_def int_of_float64_def S)
qed

lemma ttlSeconds_exact:
  assumes "0 \<le> sint d" "sint d < 2 ^ 24 * 1000000000"
  shows "ttlSeconds d = sint d div 1000000000"
proof -
  let ?a = "sint d div 1000000000"
  let ?r = "float64_div (float64_of_int (sint d mod 1000000000)) 1000000000"
  let ?y = "of_int ?a + ?r"
  have a0: "0 \<le> ?a" using assms by simp
  have a24: "?a + 1 \<le> 2 ^ 24" using assms(2) by simp
  have r: "0 \<le> ?r" "?r \<le> 999999999 / 1000000000 + 2 powi (- 54)"
    by (rule fraction_bounds; simp)+
  have S: "Seconds d = round_binary64 ?y" using assms(1) by (rule Seconds_nonneg_unfold)
  have y0: "0 \<le> ?y" using a0 r(1) by simp
  have nn: "0 \<le> round_binary64 ?y" using y0 by (rule round_binary64_nonneg)
  have "round_binary64 ?y < of_int ?a + 1"
  proof (cases "?y = 0")
    case True
    then show ?thesis using a0 by (simp add: round_binary64_def)
  next
    case False
    with y0 have yp: "0 < ?y" by simp
    have "(of_int (?a + 1) :: rat) \<le> of_int (2 ^ 24)" using a24 by (simp only: of_int_le_iff)
    then have "(of_int ?a :: rat) + 1 \<le> 2 ^ 24" by simp
    with r(2) tiny_powers have "?y < 2 powi 24" by simp
    then have "binade ?y < 24" using yp by (rule binade_less [rotated])
    then have "(2::rat) powi (binade ?y - 53) \<le> 2 powi (- 30)"
      by (intro power_int_2_mono) simp
    with round_binary64_err [OF yp] r(2) tiny_powers show ?thesis by linarith
  qed
  then have "round_binary64 ?y < of_int (?a + 1)" by simp
  then have "\<lfloor>round_binary64 ?y\<rfloor> < ?a + 1" by (simp only: floor_less_iff)
  moreover have "?a \<le> ttlSeconds d" using assms(1) by (rule ttlSeconds_bounds)
  ultimately show ?thesis using nn by (simp add: ttlSeconds_def int_of_float64_def S)
qed

text \<open>Values of the conversion at a few durations, computed by the kernel.\<close>

lemma ttlSeconds_5s: "ttlSeconds 5000000000 = 5"
  by code_simp

lemma ttlSeconds_30s: "ttlSeconds 30000000000 = 30"
  by code_simp

lemma ttlSeconds_2p24: "ttlSeconds 16777216999999999 = 16777217"
  by code_simp

lemma ttlSeconds_365d: "ttlSeconds 31536000999999999 = 31536001"
  by code_simp

lemma sint_Interval: "sint DefaultStorageRedisLoopInterval = 10000000000"
  by (simp add: DefaultStorageRedisLoopInterval_def Second_def)

section \<open>Touching a session: \<^verbatim>\<open>UpdateTTL\<close>\<close>

text \<open>
  What \<^verbatim>\<open>UpdateTTL\<close> does to the storage, for every storage, session id and TTL: a
  TTL below the flush interval of 10 seconds leaves the storage, and so the
  Pending-Renewal Set, unchanged; a TTL of at least the interval upserts the entry of
  the session id with \<^verbatim>\<open>int(ttl.Seconds())\<close> and changes nothing else. That value is the
  truncated number of whole seconds of the TTL or one more, and it is the truncated
  number whenever the TTL is below \<open>2\<^sup>2\<^sup>4\<close> seconds (about 194 days).
\<close>

lemma UpdateTTL_threshold:
  "(sint ttl < sint DefaultStorageRedisLoopInterval \<longrightarrow> fst (UpdateTTL s sessionId ttl) = s) \<and>
   (sint DefaultStorageRedisLoopInterval \<le> sint ttl \<longrightarrow>
      fst (UpdateTTL s sessionId ttl)
        = s\<lparr>updatingIdMap := (updatingIdMap s)(sessionId \<mapsto> ttlSeconds ttl)\<rparr> \<and>
      sint ttl sdiv sint Second \<le> ttlSeconds ttl \<and>
      ttlSeconds ttl \<le> sint ttl sdiv sint Second + 1 \<and>
      (sint ttl < 2 ^ 24 * sint Second \<longrightarrow> ttlSeconds ttl = sint ttl sdiv sint Second))"
proof (intro conjI impI)
  assume "sint ttl < sint DefaultStorageRedisLoopInterval"
  then show "fst (UpdateTTL s sessionId ttl) = s" by (simp add: UpdateTTL_def)
next
  assume ge: "sint DefaultStorageRedisLoopInterval \<le> sint ttl"
  then show "fst (UpdateTTL s sessionId ttl)
          = s\<lparr>updatingIdMap := (updatingIdMap s)(sessionId \<mapsto> ttlSeconds ttl)\<rparr>"
    by (simp add: UpdateTTL_def StrIntMap_Set_def)
  from ge have nn: "0 \<le> sint ttl" by (simp add: sint_Interval)
  then have sd: "sint ttl sdiv sint Second = sint ttl div 1000000000"
    by (simp add: sint_Second signed_divide_int_def sgn_if)
  show "sint ttl sdiv sint Second \<le> ttlSeconds ttl"
    unfolding sd using nn by (rule ttlSeconds_bounds)
  show "ttlSeconds ttl \<le> sint ttl sdiv sint Second + 1"
    unfolding sd using nn by (rule ttlSeconds_bounds)
  assume "sint ttl < 2 ^ 24 * sint Second"
  then show "ttlSeconds ttl = sint ttl sdiv sint Second"
    unfolding sd using nn ttlSeconds_exact [of ttl] by (simp add: sint_Second)
qed

text \<open>The scenario of the specification: a touch of 5 seconds is dropped, a touch of
  30 seconds queues \<open>abc \<mapsto> 30\<close>.\<close>

lemma UpdateTTL_scenario:
  "fst (UpdateTTL \<lparr>redis = reference_store, prefix = '''', updatingIdMap = Map.empty\<rparr>
          ''abc'' 5000000000)
     = \<lparr>redis = reference_store, prefix = '''', updatingIdMap = Map.empty\<rparr> \<and>
   fst (UpdateTTL \<lparr>redis = reference_store, prefix = '''', updatingIdMap = Map.empty\<rparr>
          ''abc'' 30000000000)
     = \<lparr>redis = reference_store, prefix = '''', updatingIdMap = [''abc'' \<mapsto> 30]\<rparr>"
  by (simp add: UpdateTTL_def StrIntMap_Set_def sint_Interval ttlSeconds_30s)

text \<open>
  Claim C1 at a TTL of 16777216.999999999 seconds. The TTL is above the flush
  interval, so \<^verbatim>\<open>UpdateTTL\<close> queues an entry for the session id; the claim gives it the
  truncated whole seconds of the TTL, 16777216, and the code queues 16777217:
  \<^verbatim>\<open>Seconds\<close> adds 16777216.0 and 0.999999999 in binary64, where neighbouring values at
  \<open>2\<^sup>2\<^sup>4\<close> are \<open>2\<^sup>-\<^sup>2\<^sup>8\<close> apart (about \<open>3.7 \<times> 10\<^sup>-\<^sup>9\<close>), so the sum rounds up to
  16777217.0 and the conversion to \<^verbatim>\<open>int\<close> finds no fraction to drop.
\<close>

theorem UpdateTTL_not_truncated:
  "sint DefaultStorageRedisLoopInterval \<le> sint (16777216999999999 :: duration) \<and>
   updatingIdMap (fst (UpdateTTL \<lparr>redis = reference_store, prefix = '''', updatingIdMap = Map.empty\<rparr>
                         ''abc'' 16777216999999999)) ''abc'' = Some 16777217 \<and>
   sint (16777216999999999 :: duration) sdiv sint Second = 16777216"
  by (simp add: UpdateTTL_def StrIntMap_Set_def sint_Interval sint_Second ttlSeconds_2p24
        signed_divide_int_def)

text \<open>
  Claim C9. For every storage, session id and TTL, \<^verbatim>\<open>UpdateTTL\<close> returns a nil error,
  whether the touch was queued or dropped.
\<close>

theorem UpdateTTL_returns_nil: "snd (UpdateTTL s sessionId ttl) = None"
  by (simp add: UpdateTTL_def)

text \<open>
  Claim C3, as the code has it. For every session id, every first TTL \<open>t1\<close> and every
  second TTL \<open>t2\<close> of at least the flush interval: after the two touches the
  Pending-Renewal Set is the initial one with the single entry of the session id
  overwritten by the seconds of \<open>t2\<close>. The set is a map, so it holds one entry for the
  id; the other entries are untouched.
\<close>

theorem UpdateTTL_last_writer_wins:
  "sint DefaultStorageRedisLoopInterval \<le> sint t2 \<Longrightarrow>
   updatingIdMap (fst (UpdateTTL (fst (UpdateTTL s sessionId t1)) sessionId t2))
     = (updatingIdMap s)(sessionId \<mapsto> ttlSeconds t2)"
  by (simp add: UpdateTTL_def StrIntMap_Set_def)

theorem UpdateTTL_last_writer_wins_witness:
  "sint DefaultStorageRedisLoopInterval \<le> sint (30000000000 :: duration) \<and>
   updatingIdMap
     (fst (UpdateTTL
        (fst (UpdateTTL \<lparr>redis = reference_store, prefix = '''', updatingIdMap = Map.empty\<rparr>
                ''abc'' 16777216999999999))
        ''abc'' 30000000000))
     = [''abc'' \<mapsto> 30]"
  using UpdateTTL_last_writer_wins [of 30000000000
          "\<lparr>redis = reference_store, prefix = '''', updatingIdMap = Map.empty\<rparr>" "''abc''"
          16777216999999999]
  by (simp add: sint_Interval ttlSeconds_30s)

text \<open>
  Claim C3 as stated covers every \<open>t2\<close>. A second touch below the flush interval is
  dropped: after touches of 30 seconds and then 5 seconds the entry still holds 30.
\<close>

theorem UpdateTTL_second_touch_dropped:
  "updatingIdMap
     (fst (UpdateTTL
        (fst (UpdateTTL \<lparr>redis = reference_store, prefix = '''', updatingIdMap = Map.empty\<rparr>
                ''abc'' 30000000000))
        ''abc'' 5000000000)) ''abc'' = Some 30 \<and>
   ttlSeconds 5000000000 = 5"
  by (simp add: UpdateTTL_def StrIntMap_Set_def sint_Interval ttlSeconds_30s ttlSeconds_5s)

section \<open>Disabled operations\<close>

text \<open>
  Claim C7. For every input, \<^verbatim>\<open>New\<close>, \<^verbatim>\<open>Get\<close>, \<^verbatim>\<open>Data\<close>, \<^verbatim>\<open>GetSize\<close>, \<^verbatim>\<open>Set\<close>, \<^verbatim>\<open>SetMap\<close>
  and \<^verbatim>\<open>Remove\<close> of the Redis storage return the sentinel \<^verbatim>\<open>ErrorDisabled\<close> as their
  error, and so do these seven operations and \<^verbatim>\<open>RemoveAll\<close> of the memory storage: the
  error is never nil, and it is the same value everywhere.
\<close>

theorem disabled_operations:
  "snd (StorageRedis_New s ttl) = Some ErrorDisabled \<and>
   snd (StorageRedis_Get s sessionId key :: 'v option \<times> error option) = Some ErrorDisabled \<and>
   snd (StorageRedis_Data s sessionId :: 'v session_map option \<times> error option)
     = Some ErrorDisabled \<and>
   snd (StorageRedis_GetSize s sessionId) = Some ErrorDisabled \<and>
   StorageRedis_Set s sessionId key (val :: 'v) ttl = Some ErrorDisabled \<and>
   StorageRedis_SetMap s sessionId (data :: 'v session_map) ttl = Some ErrorDisabled \<and>
   StorageRedis_Remove s sessionId key = Some ErrorDisabled \<and>
   snd (StorageMemory_New sm ttl) = Some ErrorDisabled \<and>
   snd (StorageMemory_Get sm sessionId key :: 'v option \<times> error option) = Some ErrorDisabled \<and>
   snd (StorageMemory_Data sm sessionId :: 'v session_map option \<times> error option)
     = Some ErrorDisabled \<and>
   snd (StorageMemory_GetSize sm sessionId) = Some ErrorDisabled \<and>
   StorageMemory_Set sm sessionId key val ttl = Some ErrorDisabled \<and>
   StorageMemory_SetMap sm sessionId data ttl = Some ErrorDisabled \<and>
   StorageMemory_Remove sm sessionId key = Some ErrorDisabled \<and>
   StorageMemory_RemoveAll sm sessionId = Some ErrorDisabled"
  by (simp add: StorageRedis_New_def StorageRedis_Get_def StorageRedis_Data_def
      StorageRedis_GetSize_def StorageRedis_Set_def StorageRedis_SetMap_def StorageRedis_Remove_def
      StorageMemory_New_def StorageMemory_Get_def StorageMemory_Data_def
      StorageMemory_GetSize_def StorageMemory_Set_def StorageMemory_SetMap_def
      StorageMemory_Remove_def StorageMemory_RemoveAll_def)

section \<open>Loading a session: \<^verbatim>\<open>GetSession\<close>\<close>

text \<open>
  Claim C5. For every storage and session id: when the backend holds no record (the
  \<^verbatim>\<open>GET\<close> succeeds with a nil reply), \<^verbatim>\<open>GetSession\<close> returns a nil map and a nil error;
  when the \<^verbatim>\<open>GET\<close> fails with an error, or the stored payload is there and its decoding
  fails with an error, it returns a nil map and that error. A failed load therefore
  carries an error and an absent session does not.
\<close>

theorem GetSession_miss_and_failures:
  "(redis s sent (GET (sessionIdToRedisKey s sessionId)) = Inr None \<longrightarrow>
      fst (GetSession js s sent h sessionId ttl data) = (None, None)) \<and>
   (redis s sent (GET (sessionIdToRedisKey s sessionId)) = Inl err \<longrightarrow>
      fst (GetSession js s sent h sessionId ttl data) = (None, Some err)) \<and>
   (redis s sent (GET (sessionIdToRedisKey s sessionId)) = Inr r \<and> Bytes r \<noteq> [] \<and>
      UnmarshalUseNumber js (Bytes r) = Inl err \<longrightarrow>
      fst (GetSession js s sent h sessionId ttl data) = (None, Some err))"
  by (simp add: GetSession_def Do_def Bytes_def)

text \<open>An id that was never saved in the reference store; a backend that times out;
  a stored payload that the decoder rejects.\<close>

theorem GetSession_miss_and_failures_witness:
  "reference_store [] (GET ''abc'') = Inr None \<and>
   fst (GetSession \<lparr>Marshal = (\<lambda>m. Inr ''{}''), UnmarshalUseNumber = (\<lambda>b. Inr (Some Map.empty))\<rparr>
          \<lparr>redis = reference_store, prefix = '''', updatingIdMap = Map.empty\<rparr>
          [] [] ''abc'' 30000000000 None) = (None, None) \<and>
   fst (GetSession \<lparr>Marshal = (\<lambda>m. Inr ''{}''), UnmarshalUseNumber = (\<lambda>b. Inr (Some Map.empty))\<rparr>
          \<lparr>redis = (\<lambda>hist c. Inl (ExternalError ''i/o timeout'')), prefix = '''',
            updatingIdMap = Map.empty\<rparr>
          [] [] ''abc'' 30000000000 None) = (None, Some (ExternalError ''i/o timeout'')) \<and>
   fst (GetSession
          \<lparr>Marshal = (\<lambda>m. Inr ''{}''),
            UnmarshalUseNumber = (\<lambda>b. Inl (ExternalError ''invalid character''))\<rparr>
          \<lparr>redis = (\<lambda>hist c. Inr (Some ''{oops'')), prefix = '''', updatingIdMap = Map.empty\<rparr>
          [] [] ''abc'' 30000000000 None) = (None, Some (ExternalError ''invalid character''))"
  using
    GetSession_miss_and_failures [where s = "\<lparr>redis = reference_store, prefix = '''', updatingIdMap = Map.empty\<rparr>"
      and sent = "[]" and sessionId = "''abc''" and h = "[]" and ttl = 30000000000 and data = None
      and js = "\<lparr>Marshal = (\<lambda>m. Inr ''{}''), UnmarshalUseNumber = (\<lambda>b. Inr (Some Map.empty))\<rparr>"]
    GetSession_miss_and_failures [where s = "\<lparr>redis = (\<lambda>hist c. Inl (ExternalError ''i/o timeout'')), prefix = '''', updatingIdMap = Map.empty\<rparr>"
      and sent = "[]" and sessionId = "''abc''" and h = "[]" and ttl = 30000000000 and data = None
      and err = "ExternalError ''i/o timeout''"
      and js = "\<lparr>Marshal = (\<lambda>m. Inr ''{}''), UnmarshalUseNumber = (\<lambda>b. Inr (Some Map.empty))\<rparr>"]
    GetSession_miss_and_failures [where s = "\<lparr>redis = (\<lambda>hist c. Inr (Some ''{oops'')), prefix = '''', updatingIdMap = Map.empty\<rparr>"
      and sent = "[]" and sessionId = "''abc''" and h = "[]" and ttl = 30000000000 and data = None
      and err = "ExternalError ''invalid character''" and r = "Some ''{oops''"
      and js = "\<lparr>Marshal = (\<lambda>m. Inr ''{}''), UnmarshalUseNumber = (\<lambda>b. Inl (ExternalError ''invalid character''))\<rparr>"]
  by (simp add: sessionIdToRedisKey_def Bytes_def)

text \<open>
  Claim C10. For every storage and session id: when the \<^verbatim>\<open>GET\<close> succeeds and the decoder
  leaves the target map nil (the payload is the JSON value \<^verbatim>\<open>null\<close>), \<^verbatim>\<open>GetSession\<close>
  returns a nil map and a nil error, and touches no map object.
\<close>

theorem GetSession_null_payload:
  "redis s sent (GET (sessionIdToRedisKey s sessionId)) = Inr r \<Longrightarrow>
   UnmarshalUseNumber js (Bytes r) = Inr None \<Longrightarrow>
   GetSession js s sent h sessionId ttl data
     = ((None, None), sent @ [GET (sessionIdToRedisKey s sessionId)], h)"
  by (simp add: GetSession_def Do_def Let_def)

theorem GetSession_null_payload_witness:
  "GetSession
     \<lparr>Marshal = (\<lambda>m. Inr ''null''),
       UnmarshalUseNumber = (\<lambda>b. if b = ''null'' then Inr None else Inr (Some Map.empty))\<rparr>
     \<lparr>redis = reference_store, prefix = ''sess:'', updatingIdMap = Map.empty\<rparr>
     [SETEX ''sess:abc'' 30 ''null''] [[''stale'' \<mapsto> ()]] ''abc'' 30000000000 (Some 0)
   = ((None, None), [SETEX ''sess:abc'' 30 ''null'', GET ''sess:abc''], [[''stale'' \<mapsto> ()]])"
  using GetSession_null_payload [where
      s = "\<lparr>redis = reference_store, prefix = ''sess:'', updatingIdMap = Map.empty\<rparr>"
      and sent = "[SETEX ''sess:abc'' 30 ''null'']" and sessionId = "''abc''"
      and r = "Some ''null''" and h = "[[''stale'' \<mapsto> ()]]" and ttl = 30000000000
      and data = "Some 0"
      and js = "\<lparr>Marshal = (\<lambda>m. Inr ''null''),
                 UnmarshalUseNumber = (\<lambda>b. if b = ''null'' then Inr None else Inr (Some Map.empty))\<rparr>"]
  by (simp add: sessionIdToRedisKey_def Bytes_def)

text \<open>
  Claim C8, as the code has it. For every session id whose backend record is a
  non-empty payload that decodes to a map \<open>m\<close>, and every non-nil pointer \<open>p\<close> to an
  existing map object: \<^verbatim>\<open>GetSession\<close> sends the one \<^verbatim>\<open>GET\<close> and returns the pointer \<open>p\<close>
  itself with a nil error; the object behind \<open>p\<close> now holds \<open>m\<close>, no object was
  allocated and every other object is unchanged.
\<close>

theorem GetSession_replaces_in_place:
  assumes "redis s sent (GET (sessionIdToRedisKey s sessionId)) = Inr r"
      and "Bytes r \<noteq> []"
      and "UnmarshalUseNumber js (Bytes r) = Inr (Some m)"
      and "p < length h"
  shows "GetSession js s sent h sessionId ttl (Some p)
           = ((Some p, None), sent @ [GET (sessionIdToRedisKey s sessionId)], h[p := m]) \<and>
         h[p := m] ! p = m \<and> length (h[p := m]) = length h \<and>
         (\<forall>q. q \<noteq> p \<longrightarrow> h[p := m] ! q = h ! q)"
  using assms by (simp add: GetSession_def Do_def Replace_def)

text \<open>A stored session replaces the stale contents of the second of two objects.\<close>

theorem GetSession_replaces_in_place_witness:
  \<open>GetSession json_table
     \<lparr>redis = reference_store, prefix = ''sess:'', updatingIdMap = Map.empty\<rparr>
     [SETEX ''sess:abc'' 30 ''{"n":100,"name":"john"}'']
     [[''other'' \<mapsto> GoString ''x''], [''stale'' \<mapsto> GoInt 7]] ''abc'' 30000000000 (Some 1)
   = ((Some 1, None),
      [SETEX ''sess:abc'' 30 ''{"n":100,"name":"john"}'', GET ''sess:abc''],
      [[''other'' \<mapsto> GoString ''x''],
       [''n'' \<mapsto> JsonNumber ''100'', ''name'' \<mapsto> GoString ''john'']])\<close>
  using GetSession_replaces_in_place [where
      s = "\<lparr>redis = reference_store, prefix = ''sess:'', updatingIdMap = Map.empty\<rparr>"
      and sent = \<open>[SETEX ''sess:abc'' 30 ''{"n":100,"name":"john"}'']\<close>
      and sessionId = "''abc''" and r = \<open>Some ''{"n":100,"name":"john"}''\<close>
      and h = "[[''other'' \<mapsto> GoString ''x''], [''stale'' \<mapsto> GoInt 7]]"
      and ttl = 30000000000 and p = 1
      and m = "[''n'' \<mapsto> JsonNumber ''100'', ''name'' \<mapsto> GoString ''john'']"
      and js = json_table]
  by (simp add: sessionIdToRedisKey_def Bytes_def json_table_def)

text \<open>
  Claim C8 as stated covers every existing backend record. Three records that are
  there and are not maps, each loaded into a non-nil map object: a record \<^verbatim>\<open>null\<close>
  (lines 134 to 136), a record that does not decode (line 132) and a record with an
  empty value (line 128). In each case \<^verbatim>\<open>GetSession\<close> returns a nil map, not the
  caller's, and leaves the caller's object as it was.
\<close>

theorem GetSession_record_without_map:
  "GetSession
     \<lparr>Marshal = (\<lambda>m. Inr ''null''),
       UnmarshalUseNumber = (\<lambda>b. if b = ''null'' then Inr None
                                  else Inl (ExternalError ''invalid character''))\<rparr>
     \<lparr>redis = reference_store, prefix = '''', updatingIdMap = Map.empty\<rparr>
     [SETEX ''s1'' 60 ''null''] [[''stale'' \<mapsto> GoInt 7]] ''s1'' 60000000000 (Some 0)
   = ((None, None), [SETEX ''s1'' 60 ''null'', GET ''s1''], [[''stale'' \<mapsto> GoInt 7]]) \<and>
   GetSession
     \<lparr>Marshal = (\<lambda>m. Inr ''null''),
       UnmarshalUseNumber = (\<lambda>b. if b = ''null'' then Inr None
                                  else Inl (ExternalError ''invalid character''))\<rparr>
     \<lparr>redis = reference_store, prefix = '''', updatingIdMap = Map.empty\<rparr>
     [SETEX ''s2'' 60 ''{oops''] [[''stale'' \<mapsto> GoInt 7]] ''s2'' 60000000000 (Some 0)
   = ((None, Some (ExternalError ''invalid character'')),
      [SETEX ''s2'' 60 ''{oops'', GET ''s2''], [[''stale'' \<mapsto> GoInt 7]]) \<and>
   GetSession
     \<lparr>Marshal = (\<lambda>m. Inr ''null''),
       UnmarshalUseNumber = (\<lambda>b. if b = ''null'' then Inr None
                                  else Inl (ExternalError ''invalid character''))\<rparr>
     \<lparr>redis = reference_store, prefix = '''', updatingIdMap = Map.empty\<rparr>
     [SETEX ''s3'' 60 ''''] [[''stale'' \<mapsto> GoInt 7]] ''s3'' 60000000000 (Some 0)
   = ((None, None), [SETEX ''s3'' 60 '''', GET ''s3''], [[''stale'' \<mapsto> GoInt 7]])"
  by (simp add: GetSession_def Do_def sessionIdToRedisKey_def Bytes_def)

section \<open>Saving a session: \<^verbatim>\<open>SetSession\<close>\<close>

text \<open>
  Claim C6 at a TTL of 365 days and 0.999999999 seconds. \<^verbatim>\<open>SetSession\<close> sends
  \<^verbatim>\<open>SETEX abc 31536001\<close>, one second more than the truncated 31536000 whole seconds
  of the duration: \<^verbatim>\<open>Seconds\<close> adds 31536000.0 and 0.999999999 in binary64, where the
  values between \<open>2\<^sup>2\<^sup>4\<close> and \<open>2\<^sup>2\<^sup>5\<close> are \<open>2\<^sup>-\<^sup>2\<^sup>8\<close> apart, and the sum rounds up to
  31536001.0 before the conversion to an integer drops the fraction.
\<close>

theorem SetSession_ttl_not_truncated:
  "SetSession \<lparr>Marshal = (\<lambda>m. Inr ''{}''), UnmarshalUseNumber = (\<lambda>b. Inr (Some Map.empty))\<rparr>
     \<lparr>redis = reference_store, prefix = '''', updatingIdMap = Map.empty\<rparr>
     [] [Map.empty] ''abc'' (Some 0) 31536000999999999
   = (None, [SETEX ''abc'' 31536001 ''{}'']) \<and>
   sint (31536000999999999 :: duration) sdiv sint Second = 31536000"
  by (simp add: SetSession_def Do_def sessionIdToRedisKey_def ttlSeconds_365d sint_Second
        signed_divide_int_def)







section \<open>The renewal flusher\<close>

lemma Pop_blank:
  assumes "Pop m ('''', secs) m'" "'''' \<notin> dom m"
  shows "m = Map.empty \<and> m' = Map.empty"
  using assms by (auto elim: Pop.cases)

lemma Pop_named:
  assumes "Pop m (key, secs) m'" "key \<noteq> ''''"
  shows "m key = Some secs \<and> m' = m(key := None)"
  using assms by (auto elim: Pop.cases)

lemma graph_remove:
  assumes "m key = Some val"
  shows "Map.graph m = insert (key, val) (Map.graph (m(key := None)))"
    and "(key, val) \<notin> Map.graph (m(key := None))"
  using assms by (auto simp: Map.graph_def split: if_splits)

lemma doUpdateTTL_sends:
  "doUpdateTTL s sent sessionId secs =
     ((case redis s sent (EXPIRE (prefix s @ sessionId) secs) of Inl e \<Rightarrow> Some e | Inr r \<Rightarrow> None),
      sent @ [EXPIRE (prefix s @ sessionId) secs])"
  by (simp add: doUpdateTTL_def Do_def sessionIdToRedisKey_def split: sum.splits)

text \<open>Every run of the loop, by rule induction on the runs.\<close>

lemma timer_callback_drains:
  assumes "timer_callback st fin"
      and "'''' \<notin> dom (updatingIdMap (fst st))" "finite (dom (updatingIdMap (fst st)))"
  shows "fst fin = (fst st)\<lparr>updatingIdMap := Map.empty\<rparr> \<and>
         (\<exists>new. fst (snd fin) = fst (snd st) @ new \<and>
            mset new = renewals (fst st) \<and>
            snd (snd fin) = snd (snd st) @ failures (redis (fst st)) (fst (snd st)) new)"
  using assms
proof (induction rule: timer_callback.induct)
  case (loop_break s sessionId secs m' sent errlog)
  then have "Pop (updatingIdMap s) ('''', secs) m'" "'''' \<notin> dom (updatingIdMap s)"
    by simp_all
  then have "updatingIdMap s = Map.empty \<and> m' = Map.empty" by (rule Pop_blank)
  then show ?case by (simp add: renewals_def)
next
  case (loop_next s sessionId secs m' sent err sent' errlog final)
  let ?cmd = "EXPIRE (prefix s @ sessionId) secs"
  from loop_next.hyps(1,2) have e: "updatingIdMap s sessionId = Some secs"
    and m': "m' = (updatingIdMap s)(sessionId := None)" using Pop_named by auto
  from loop_next.hyps(3)
  have err: "err = (case redis s sent ?cmd of Inl e \<Rightarrow> Some e | Inr r \<Rightarrow> None)"
    and sent': "sent' = sent @ [?cmd]" by (simp_all add: doUpdateTTL_sends)
  have "'''' \<notin> dom m'" "finite (dom m')" using loop_next.prems by (simp_all add: m')
  with loop_next.IH obtain new where
    fin: "fst final = s\<lparr>updatingIdMap := Map.empty\<rparr>"
    and new: "fst (snd final) = sent' @ new"
    and ms: "mset new = renewals (s\<lparr>updatingIdMap := m'\<rparr>)"
    and lg: "snd (snd final) = (case err of None \<Rightarrow> errlog | Some e \<Rightarrow> errlog @ [e])
               @ failures (redis s) sent' new"
    by auto
  have fg: "finite (Map.graph m')" using \<open>finite (dom m')\<close> by simp
  have "renewals s = add_mset ?cmd (renewals (s\<lparr>updatingIdMap := m'\<rparr>))"
    using graph_remove [of "updatingIdMap s" sessionId secs] e fg by (simp add: renewals_def m')
  then have 1: "mset (?cmd # new) = renewals s" using ms by simp
  have 2: "fst (snd final) = sent @ (?cmd # new)" using new sent' by simp
  have 3: "snd (snd final) = errlog @ failures (redis s) sent (?cmd # new)"
    using lg by (simp add: err sent' split: sum.splits)
  show ?case using fin 1 2 3 by (intro conjI exI [of _ "?cmd # new"]) simp_all
qed

text \<open>The loop returns: by induction on the number of queued entries.\<close>

lemma timer_callback_returns:
  assumes "finite (dom (updatingIdMap s))" "'''' \<notin> dom (updatingIdMap s)"
  shows "\<exists>fin. timer_callback (s, sent, errlog) fin"
  using assms
proof (induction "card (dom (updatingIdMap s))" arbitrary: s sent errlog)
  case 0
  then have "updatingIdMap s = Map.empty" by simp
  then have "Pop (updatingIdMap s) ('''', 0) (updatingIdMap s)" by (rule Pop_empty)
  then show ?case using loop_break by blast
next
  case (Suc n)
  then have "dom (updatingIdMap s) \<noteq> {}" by auto
  then obtain key where "key \<in> dom (updatingIdMap s)" by blast
  then obtain secs where e: "updatingIdMap s key = Some secs" by blast
  with Suc.prems have k: "key \<noteq> ''''" by auto
  let ?m' = "(updatingIdMap s)(key := None)"
  let ?s' = "s\<lparr>updatingIdMap := ?m'\<rparr>"
  obtain err sent' where d: "doUpdateTTL ?s' sent key secs = (err, sent')"
    by (cases "doUpdateTTL ?s' sent key secs")
  have "card (dom ?m') = n"
    using Suc.hyps(2) Suc.prems(1) e by (simp add: card_Diff_singleton domI)
  moreover have "finite (dom (updatingIdMap ?s'))" "'''' \<notin> dom (updatingIdMap ?s')"
    using Suc.prems by simp_all
  ultimately obtain fin where
    "timer_callback (?s', sent', (case err of None \<Rightarrow> errlog | Some e \<Rightarrow> errlog @ [e])) fin"
    using Suc.hyps(1) [of ?s' sent' "case err of None \<Rightarrow> errlog | Some e \<Rightarrow> errlog @ [e]"]
    by auto
  moreover have "Pop (updatingIdMap s) (key, secs) ?m'" using e by (rule Pop_entry)
  ultimately show ?case using k d loop_next by blast
qed

text \<open>
  Claim C2, as the code has it. For every initial state in which the Pending-Renewal
  Set is finite (as every Go map is) and holds no entry under the empty session id,
  and for every backend, whatever it answers: the timer callback returns; and however
  \<^verbatim>\<open>Pop\<close> picks the entries, it leaves the set empty, it has sent exactly one \<^verbatim>\<open>EXPIRE\<close>
  for each initially queued entry (its key and its seconds) and nothing else, and it
  has logged exactly the errors the backend answered to those commands. So a failing
  entry neither stops the batch nor is queued again.
\<close>

theorem timer_callback_flushes_every_entry:
  assumes "finite (dom (updatingIdMap s))" and "'''' \<notin> dom (updatingIdMap s)"
  shows "(\<exists>fin. timer_callback (s, sent, errlog) fin) \<and>
         (\<forall>s' sent' errlog'. timer_callback (s, sent, errlog) (s', sent', errlog') \<longrightarrow>
            s' = s\<lparr>updatingIdMap := Map.empty\<rparr> \<and>
            (\<exists>new. sent' = sent @ new \<and> mset new = renewals s \<and>
                   errlog' = errlog @ failures (redis s) sent new))"
proof (intro conjI allI impI)
  show "\<exists>fin. timer_callback (s, sent, errlog) fin"
    using assms by (rule timer_callback_returns)
next
  fix s' sent' errlog'
  assume run: "timer_callback (s, sent, errlog) (s', sent', errlog')"
  have "'''' \<notin> dom (updatingIdMap (fst (s, sent, errlog)))"
       "finite (dom (updatingIdMap (fst (s, sent, errlog))))"
    using assms by simp_all
  from timer_callback_drains [OF run this]
  show "s' = s\<lparr>updatingIdMap := Map.empty\<rparr>"
    and "\<exists>new. sent' = sent @ new \<and> mset new = renewals s \<and>
               errlog' = errlog @ failures (redis s) sent new"
    by simp_all
qed

lemma renewals_two:
  "renewals \<lparr>redis = rd, prefix = ''sess:'', updatingIdMap = [''a'' \<mapsto> 30, ''b'' \<mapsto> 60]\<rparr>
     = {#EXPIRE ''sess:a'' 30, EXPIRE ''sess:b'' 60#}"
proof -
  have "Map.graph [''a'' \<mapsto> 30 :: int, ''b'' \<mapsto> 60] = {(''a'', 30), (''b'', 60)}"
    by (auto simp: Map.graph_def split: if_splits)
  then show ?thesis by (simp add: renewals_def)
qed

text \<open>Two queued sessions and a backend that fails every command: both renewals
  are sent all the same, and the set ends empty.\<close>

theorem timer_callback_flushes_every_entry_witness:
  "finite (dom [''a'' \<mapsto> 30 :: int, ''b'' \<mapsto> 60]) \<and>
   '''' \<notin> dom [''a'' \<mapsto> 30 :: int, ''b'' \<mapsto> 60] \<and>
   (\<exists>s' sent' errlog'.
      timer_callback
        (\<lparr>redis = (\<lambda>hist c. Inl (ExternalError ''i/o timeout'')), prefix = ''sess:'',
           updatingIdMap = [''a'' \<mapsto> 30, ''b'' \<mapsto> 60]\<rparr>, [], []) (s', sent', errlog') \<and>
      updatingIdMap s' = Map.empty \<and>
      mset sent' = {#EXPIRE ''sess:a'' 30, EXPIRE ''sess:b'' 60#} \<and>
      errlog' = [ExternalError ''i/o timeout'', ExternalError ''i/o timeout''])"
proof -
  let ?s = "\<lparr>redis = (\<lambda>hist c. Inl (ExternalError ''i/o timeout'')), prefix = ''sess:'',
              updatingIdMap = [''a'' \<mapsto> 30, ''b'' \<mapsto> 60]\<rparr>"
  have fin: "finite (dom (updatingIdMap ?s))" and named: "'''' \<notin> dom (updatingIdMap ?s)"
    by simp_all
  note flush = timer_callback_flushes_every_entry [OF fin named, of "[]" "[]"]
  from flush obtain s' sent' errlog' where run: "timer_callback (?s, [], []) (s', sent', errlog')"
    by auto
  with flush have s': "s' = ?s\<lparr>updatingIdMap := Map.empty\<rparr>"
    and "\<exists>new. sent' = [] @ new \<and> mset new = renewals ?s \<and>
               errlog' = [] @ failures (redis ?s) [] new"
    by blast+
  then have sent': "mset sent' = {#EXPIRE ''sess:a'' 30, EXPIRE ''sess:b'' 60#}"
    and errlog': "errlog' = failures (redis ?s) [] sent'"
    by (auto simp: renewals_two)
  from sent' have "size (mset sent') = 2" by simp
  then have "length sent' = 2" by simp
  then obtain x y where "sent' = [x, y]"
    by (auto simp: numeral_2_eq_2 length_Suc_conv)
  with errlog' have "errlog' = [ExternalError ''i/o timeout'', ExternalError ''i/o timeout'']"
    by simp
  moreover have "updatingIdMap s' = Map.empty" using s' by simp
  ultimately have
    "\<exists>s' sent' errlog'. timer_callback (?s, [], []) (s', sent', errlog') \<and>
       updatingIdMap s' = Map.empty \<and>
       mset sent' = {#EXPIRE ''sess:a'' 30, EXPIRE ''sess:b'' 60#} \<and>
       errlog' = [ExternalError ''i/o timeout'', ExternalError ''i/o timeout'']"
    using run sent' by blast
  moreover have "finite (dom [''a'' \<mapsto> 30 :: int, ''b'' \<mapsto> 60])"
    and "'''' \<notin> dom [''a'' \<mapsto> 30 :: int, ''b'' \<mapsto> 60]"
    by simp_all
  ultimately show ?thesis by (intro conjI)
qed

text \<open>
  Claim C2 as stated covers every initial state. The empty session id can be queued
  like any other, and the loop reads an empty id as the end of the set: after touches
  of \<open>abc\<close> and of the empty id, a run in which \<^verbatim>\<open>Pop\<close> yields the empty id first stops
  there, with \<open>abc\<close> still queued and no \<^verbatim>\<open>EXPIRE\<close> sent for either entry.
\<close>

theorem timer_callback_stops_at_empty_id:
  "timer_callback
     (fst (UpdateTTL
        (fst (UpdateTTL \<lparr>redis = reference_store, prefix = '''', updatingIdMap = Map.empty\<rparr>
                ''abc'' 30000000000))
        '''' 30000000000), [], [])
     (\<lparr>redis = reference_store, prefix = '''', updatingIdMap = [''abc'' \<mapsto> 30]\<rparr>, [], [])"
proof -
  let ?s = "\<lparr>redis = reference_store, prefix = '''',
              updatingIdMap = [''abc'' \<mapsto> 30, '''' \<mapsto> 30]\<rparr>"
  have st: "fst (UpdateTTL
        (fst (UpdateTTL \<lparr>redis = reference_store, prefix = '''', updatingIdMap = Map.empty\<rparr>
                ''abc'' 30000000000))
        '''' 30000000000) = ?s"
    by (simp add: UpdateTTL_def StrIntMap_Set_def sint_Interval ttlSeconds_30s)
  have "Pop (updatingIdMap ?s) ('''', 30) ((updatingIdMap ?s)('''' := None))"
    by (rule Pop_entry) simp
  moreover have "(updatingIdMap ?s)('''' := None) = [''abc'' \<mapsto> 30]"
    by (rule ext) simp
  ultimately have "Pop (updatingIdMap ?s) ('''', 30) [''abc'' \<mapsto> 30]" by simp
  then have "timer_callback (?s, [], []) (?s\<lparr>updatingIdMap := [''abc'' \<mapsto> 30]\<rparr>, [], [])"
    by (rule loop_break) simp
  then show ?thesis unfolding st by simp
qed

end
